theory Spec2Isabelle
  imports Main "HOL-Library.Word"
begin

unbundle bit_operations_syntax

section \<open>Common types (common.hpp)\<close>

text \<open>
  \<^verbatim>\<open>typedef uint8_t NES_Byte; typedef uint16_t NES_Address; typedef uint32_t NES_Pixel;\<close>
\<close>

type_synonym NES_Byte = "8 word"
type_synonym NES_Address = "16 word"
type_synonym NES_Pixel = "32 word"

text \<open>
  The failures of the engine as values. \<open>Length_error\<close> is the \<^verbatim>\<open>std::length_error\<close>
  thrown by \<^verbatim>\<open>static_vector\<close>, with its message. \<open>Out_of_bounds\<close> stands for an index
  into a \<^verbatim>\<open>std::array\<close> outside \<open>0..<N\<close>: C++ gives such an access no meaning, so the
  model makes it a failure of its own instead of a read of an arbitrary cell.
  \<open>Slot_out_of_range\<close> is the rejection of a snapshot slot index.
\<close>

datatype error = Length_error string | Out_of_bounds | Slot_out_of_range

subsection \<open>std::array access\<close>

definition array_load :: "'a list \<Rightarrow> nat \<Rightarrow> error + 'a" where
  "array_load xs i = (if i < length xs then Inr (xs ! i) else Inl Out_of_bounds)"

definition array_store :: "'a list \<Rightarrow> nat \<Rightarrow> 'a \<Rightarrow> error + 'a list" where
  "array_store xs i v = (if i < length xs then Inr (xs[i := v]) else Inl Out_of_bounds)"

subsection \<open>static_vector\<close>

text \<open>
  \<^verbatim>\<open>template<typename T, std::size_t N> class static_vector : public std::array<T, N>\<close>
  with the private members \<^verbatim>\<open>current_size{0}\<close> and \<^verbatim>\<open>reserved_size{N}\<close>. The base array is
  the field \<open>elems\<close>; the template parameter \<open>N\<close> is an explicit argument of the operations
  that mention it. The two sizes are \<^verbatim>\<open>std::size_t\<close>; they are only compared, assigned and
  incremented below a bound, so \<open>nat\<close> reads them without wrap-around.
\<close>

record 'a static_vector =
  elems :: "'a list"
  current_size :: nat
  reserved_size :: nat

text \<open>\<^verbatim>\<open>static_vector() : std::array<T, N>() {}\<close>: a value-initialised array, no element in use.\<close>

definition static_vector_new :: "nat \<Rightarrow> 'a \<Rightarrow> 'a static_vector" where
  "static_vector_new N zero = \<lparr>elems = replicate N zero, current_size = 0, reserved_size = N\<rparr>"

text \<open>
  \<^verbatim>\<open>
  void push_back(const T& value) {
      if (current_size >= reserved_size)
          throw std::length_error("static_vector: container is full");
      (*this)[current_size++] = value;
  }
  \<close>
\<close>

definition push_back :: "'a \<Rightarrow> 'a static_vector \<Rightarrow> error + 'a static_vector" where
  "push_back v s =
     (if current_size s \<ge> reserved_size s
      then Inl (Length_error ''static_vector: container is full'')
      else (case array_store (elems s) (current_size s) v of
              Inl e \<Rightarrow> Inl e
            | Inr xs \<Rightarrow> Inr (s\<lparr>elems := xs, current_size := current_size s + 1\<rparr>)))"

text \<open>
  \<^verbatim>\<open>
  void reserve(std::size_t new_capacity) {
      if (new_capacity > N)
          throw std::length_error("static_vector: cannot reserve beyond max capacity");
      reserved_size = new_capacity;
      current_size = std::min(current_size, reserved_size);
  }
  \<close>
\<close>

definition reserve :: "nat \<Rightarrow> nat \<Rightarrow> 'a static_vector \<Rightarrow> error + 'a static_vector" where
  "reserve N new_capacity s =
     (if new_capacity > N
      then Inl (Length_error ''static_vector: cannot reserve beyond max capacity'')
      else Inr (s\<lparr>reserved_size := new_capacity,
                  current_size := min (current_size s) new_capacity\<rparr>))"

text \<open>
  \<^verbatim>\<open>
  void resize(std::size_t new_size) {
      if (new_size > reserved_size)
          throw std::length_error("static_vector: cannot resize beyond reserved capacity");
      current_size = new_size;
  }
  void clear() { current_size = 0; }
  \<close>
\<close>

definition resize :: "nat \<Rightarrow> 'a static_vector \<Rightarrow> error + 'a static_vector" where
  "resize new_size s =
     (if new_size > reserved_size s
      then Inl (Length_error ''static_vector: cannot resize beyond reserved capacity'')
      else Inr (s\<lparr>current_size := new_size\<rparr>))"

definition clear :: "'a static_vector \<Rightarrow> 'a static_vector" where
  "clear s = s\<lparr>current_size := 0\<rparr>"

text \<open>\<^verbatim>\<open>begin()\<close> to \<^verbatim>\<open>end() = begin() + current_size\<close>: what iteration sees.\<close>

definition contents :: "'a static_vector \<Rightarrow> 'a list" where
  "contents s = take (current_size s) (elems s)"

text \<open>
  A caller's sequence of calls. A call that throws returns no updated vector: each throw
  is the first statement of its member function, so the object is as it was before the
  call, and a caller that catches the exception goes on from there. \<open>sv_run\<close> is such a
  caller: it collects what was thrown and the vector after the last call.
\<close>

datatype 'a sv_op = Push_back 'a | Reserve nat | Resize nat | Clear

fun sv_apply :: "nat \<Rightarrow> 'a sv_op \<Rightarrow> 'a static_vector \<Rightarrow> error + 'a static_vector" where
  "sv_apply N (Push_back v) s = push_back v s"
| "sv_apply N (Reserve n) s = reserve N n s"
| "sv_apply N (Resize n) s = resize n s"
| "sv_apply N Clear s = Inr (clear s)"

fun sv_run :: "nat \<Rightarrow> 'a sv_op list \<Rightarrow> 'a static_vector \<Rightarrow> error list \<times> 'a static_vector" where
  "sv_run N [] s = ([], s)"
| "sv_run N (x # xs) s =
     (case sv_apply N x s of
        Inl e \<Rightarrow> (let (es, s') = sv_run N xs s in (e # es, s'))
      | Inr t \<Rightarrow> sv_run N xs t)"

text \<open>The invariant of the class: the array has its \<open>N\<close> cells and the sizes are ordered.\<close>

definition sv_inv :: "nat \<Rightarrow> 'a static_vector \<Rightarrow> bool" where
  "sv_inv N s \<longleftrightarrow> length (elems s) = N \<and> current_size s \<le> reserved_size s \<and> reserved_size s \<le> N"

section \<open>The picture processing unit (ppu.hpp)\<close>

text \<open>
  \<^verbatim>\<open>
  const int VISIBLE_SCANLINES = 240;
  const int SCANLINE_VISIBLE_DOTS = 256;
  const int SCANLINE_CYCLE_LENGTH = 341;
  const int SCANLINE_END_CYCLE = 341;
  const int FRAME_END_SCANLINE = 261;
  \<close>
\<close>

definition VISIBLE_SCANLINES :: int where "VISIBLE_SCANLINES = 240"
definition SCANLINE_VISIBLE_DOTS :: int where "SCANLINE_VISIBLE_DOTS = 256"
definition SCANLINE_CYCLE_LENGTH :: int where "SCANLINE_CYCLE_LENGTH = 341"
definition SCANLINE_END_CYCLE :: int where "SCANLINE_END_CYCLE = 341"
definition FRAME_END_SCANLINE :: int where "FRAME_END_SCANLINE = 261"

text \<open>\<^verbatim>\<open>typedef NES_Pixel NESFrameBufferT[VISIBLE_SCANLINES][SCANLINE_VISIBLE_DOTS];\<close>\<close>

type_synonym NESFrameBufferT = "NES_Pixel list list"

datatype State = PRE_RENDER | RENDER | POST_RENDER | VERTICAL_BLANK

datatype CharacterPage = LOW | HIGH

text \<open>
  The private members of \<^verbatim>\<open>class PPU\<close>, in the order of the header. The
  \<^verbatim>\<open>std::function<void(void)> vblank_callback\<close> is a value of a type \<open>'cb\<close> of callbacks: the
  class only stores and copies it here. \<^verbatim>\<open>sprite_memory\<close> is a
  \<^verbatim>\<open>static_vector<NES_Byte, 64 * 4>\<close> and \<^verbatim>\<open>scanline_sprites\<close> a \<^verbatim>\<open>static_vector<NES_Byte, 8>\<close>.
\<close>

record 'cb PPU =
  vblank_callback :: 'cb
  sprite_memory :: "NES_Byte static_vector"
  scanline_sprites :: "NES_Byte static_vector"
  pipeline_state :: State
  cycles :: int
  scanline :: int
  is_even_frame :: bool
  is_vblank :: bool
  is_sprite_zero_hit :: bool
  data_address :: NES_Address
  temp_address :: NES_Address
  fine_x_scroll :: NES_Byte
  is_first_write :: bool
  data_buffer :: NES_Byte
  sprite_data_address :: NES_Byte
  is_showing_sprites :: bool
  is_showing_background :: bool
  is_hiding_edge_sprites :: bool
  is_hiding_edge_background :: bool
  is_long_sprites :: bool
  is_interrupting :: bool
  background_page :: CharacterPage
  sprite_page :: CharacterPage
  data_address_increment :: NES_Address

text \<open>
  What the types of the two arrays say: \<^verbatim>\<open>std::array<NES_Byte, 64 * 4>\<close> has 256 cells and
  \<^verbatim>\<open>std::array<NES_Byte, 8>\<close> has 8.
\<close>

definition PPU_wf :: "'cb PPU \<Rightarrow> bool" where
  "PPU_wf p \<longleftrightarrow> length (elems (sprite_memory p)) = 64 * 4 \<and> length (elems (scanline_sprites p)) = 8"


text \<open>\<^verbatim>\<open>inline void set_OAM_address(NES_Byte address) { sprite_data_address = address; }\<close>\<close>

definition set_OAM_address :: "NES_Byte \<Rightarrow> 'cb PPU \<Rightarrow> 'cb PPU" where
  "set_OAM_address address p = p\<lparr>sprite_data_address := address\<rparr>"

text \<open>
  \<^verbatim>\<open>inline NES_Byte get_OAM_data() { return sprite_memory[sprite_data_address]; }\<close>
  The member function is not \<^verbatim>\<open>const\<close>: the model returns the byte and the unit after the
  call. The index is \<^verbatim>\<open>std::array::operator[]\<close>, which does not look at \<open>current_size\<close>.
\<close>

definition get_OAM_data :: "'cb PPU \<Rightarrow> error + (NES_Byte \<times> 'cb PPU)" where
  "get_OAM_data p =
     (case array_load (elems (sprite_memory p)) (unat (sprite_data_address p)) of
        Inl e \<Rightarrow> Inl e
      | Inr v \<Rightarrow> Inr (v, p))"

text \<open>
  \<^verbatim>\<open>inline void set_OAM_data(NES_Byte value) { sprite_memory[sprite_data_address++] = value; }\<close>
  The post-increment is on a \<^verbatim>\<open>uint8_t\<close>: the word addition wraps.
\<close>

definition set_OAM_data :: "NES_Byte \<Rightarrow> 'cb PPU \<Rightarrow> error + 'cb PPU" where
  "set_OAM_data v p =
     (case array_store (elems (sprite_memory p)) (unat (sprite_data_address p)) v of
        Inl e \<Rightarrow> Inl e
      | Inr xs \<Rightarrow> Inr (p\<lparr>sprite_memory := (sprite_memory p)\<lparr>elems := xs\<rparr>,
                        sprite_data_address := sprite_data_address p + 1\<rparr>))"

text \<open>
  A run of writes to the OAM data register: the bus calls \<^verbatim>\<open>ppu.set_OAM_data(b)\<close> once per
  byte (the write callback bound to \<^verbatim>\<open>OAMDATA\<close> in emulator.cpp), and stops at a failure.
\<close>

fun OAM_data_writes :: "NES_Byte list \<Rightarrow> 'cb PPU \<Rightarrow> error + 'cb PPU" where
  "OAM_data_writes [] p = Inr p"
| "OAM_data_writes (b # bs) p =
     (case set_OAM_data b p of Inl e \<Rightarrow> Inl e | Inr q \<Rightarrow> OAM_data_writes bs q)"

text \<open>
  A unit over the callback type \<open>unit\<close> with every member zero or false and both arrays
  value-initialised, as the constructors of \<^verbatim>\<open>static_vector\<close> leave them: the concrete
  unit the theorems below are run on.
\<close>

definition PPU_zero :: "unit PPU" where
  "PPU_zero = \<lparr>vblank_callback = (),
     sprite_memory = static_vector_new (64 * 4) 0,
     scanline_sprites = static_vector_new 8 0,
     pipeline_state = PRE_RENDER, cycles = 0, scanline = 0, is_even_frame = False,
     is_vblank = False, is_sprite_zero_hit = False, data_address = 0, temp_address = 0,
     fine_x_scroll = 0, is_first_write = False, data_buffer = 0, sprite_data_address = 0,
     is_showing_sprites = False, is_showing_background = False,
     is_hiding_edge_sprites = False, is_hiding_edge_background = False,
     is_long_sprites = False, is_interrupting = False, background_page = LOW,
     sprite_page = LOW, data_address_increment = 0\<rparr>"

section \<open>Core and Emulator (emulator.hpp, emulator.cpp)\<close>

text \<open>
  \<^verbatim>\<open>struct Core { MainBus bus; CPU cpu; PPU ppu; PictureBus picture_bus; ... };\<close>
  The classes \<^verbatim>\<open>MainBus\<close>, \<^verbatim>\<open>CPU\<close> and \<^verbatim>\<open>PictureBus\<close> are declared in headers that are
  not among the sources at hand; \<^verbatim>\<open>Core\<close> holds them by value and only copies them, so they
  are values of the types \<open>'bus\<close>, \<open>'cpu\<close> and \<open>'pbus\<close>. The register callbacks that the
  constructor binds live inside the bus value, the interrupt callback inside the PPU.
\<close>

record ('bus, 'cpu, 'cb, 'pbus) Core =
  bus :: 'bus
  cpu :: 'cpu
  ppu :: "'cb PPU"
  picture_bus :: 'pbus

text \<open>
  The private members of \<^verbatim>\<open>class Emulator\<close>: \<^verbatim>\<open>Core core; Cartridge cartridge;
  Controller controllers[2]; NESFrameBufferT framebuffer;\<close>
\<close>

record ('bus, 'cpu, 'cb, 'pbus, 'cart, 'ctl) Emulator =
  core :: "('bus, 'cpu, 'cb, 'pbus) Core"
  cartridge :: 'cart
  controllers :: "'ctl list"
  framebuffer :: NESFrameBufferT

text \<open>\<^verbatim>\<open>static const int CYCLES_PER_FRAME = 29781;\<close>\<close>

definition CYCLES_PER_FRAME :: int where "CYCLES_PER_FRAME = 29781"

text \<open>
  \<^verbatim>\<open>PPU::cycle(PictureBus&, NESFrameBufferT*)\<close> and \<^verbatim>\<open>CPU::cycle(MainBus&)\<close> are defined in
  files that are not among the sources at hand. Through the bus callbacks and the
  interrupt callback either of them can reach every member of the emulator, so each is a
  parameter of the stepping functions: a function on the whole state \<open>'e\<close> that the call
  can touch. They are taken to return normally, as \<^verbatim>\<open>Core::step\<close> itself has no handler.

  \<^verbatim>\<open>
  void Core::ppu_step(NESFrameBufferT* const framebuffer) {
      ppu.cycle(picture_bus, framebuffer);
      ppu.cycle(picture_bus, framebuffer);
      ppu.cycle(picture_bus, framebuffer);
  }
  void Core::step(NESFrameBufferT* const framebuffer) {
      ppu_step(framebuffer);
      cpu.cycle(bus);
  }
  \<close>
\<close>

definition Core_ppu_step :: "('e \<Rightarrow> 'e) \<Rightarrow> 'e \<Rightarrow> 'e" where
  "Core_ppu_step ppu_cycle e = ppu_cycle (ppu_cycle (ppu_cycle e))"

definition Core_step :: "('e \<Rightarrow> 'e) \<Rightarrow> ('e \<Rightarrow> 'e) \<Rightarrow> 'e \<Rightarrow> 'e" where
  "Core_step ppu_cycle cpu_cycle e = cpu_cycle (Core_ppu_step ppu_cycle e)"

text \<open>
  \<^verbatim>\<open>
  void Emulator::step() {
      for (int i = 0; i < CYCLES_PER_FRAME; i++) {
          core.step(&framebuffer);
      }
  }
  \<close>
  The loop from the value \<open>i\<close> of its counter; \<open>i + 1\<close> stays far below the range of \<^verbatim>\<open>int\<close>.
\<close>

function Emulator_step_loop :: "('e \<Rightarrow> 'e) \<Rightarrow> ('e \<Rightarrow> 'e) \<Rightarrow> int \<Rightarrow> 'e \<Rightarrow> 'e" where
  "Emulator_step_loop ppu_cycle cpu_cycle i e =
     (if i < CYCLES_PER_FRAME
      then Emulator_step_loop ppu_cycle cpu_cycle (i + 1) (Core_step ppu_cycle cpu_cycle e)
      else e)"
  by pat_completeness auto
termination
  by (relation "measure (\<lambda>(ppu_cycle, cpu_cycle, i, e). nat (CYCLES_PER_FRAME - i))") auto

declare Emulator_step_loop.simps [simp del]

definition Emulator_step :: "('e \<Rightarrow> 'e) \<Rightarrow> ('e \<Rightarrow> 'e) \<Rightarrow> 'e \<Rightarrow> 'e" where
  "Emulator_step ppu_cycle cpu_cycle e = Emulator_step_loop ppu_cycle cpu_cycle 0 e"

text \<open>
  The calls a run makes, made visible: \<open>logged ev f\<close> is the component function \<open>f\<close> on a
  state that carries the list of calls so far, and appends \<open>ev\<close> to it.
\<close>

datatype event = PPU_cycle | CPU_cycle

definition logged :: "event \<Rightarrow> ('s \<Rightarrow> 's) \<Rightarrow> 's \<times> event list \<Rightarrow> 's \<times> event list" where
  "logged ev f = (\<lambda>(s, tr). (f s, tr @ [ev]))"


text \<open>
  \<^verbatim>\<open>
  inline void snapshot(Core* const core) { *core = this->core; }
  inline void restore(const Core* const core) { this->core = *core; }
  \<close>
  \<^verbatim>\<open>Core\<close> has the implicit copy assignment: member by member, into the object that is
  already there. \<open>snapshot e dst\<close> is the object behind the pointer after the call (the
  emulator is only read); \<open>restore e src\<close> is the emulator after the call.
\<close>

definition Core_assign :: "('bus, 'cpu, 'cb, 'pbus) Core \<Rightarrow> ('bus, 'cpu, 'cb, 'pbus) Core
    \<Rightarrow> ('bus, 'cpu, 'cb, 'pbus) Core" where
  "Core_assign dst src =
     dst\<lparr>bus := bus src, cpu := cpu src, ppu := ppu src, picture_bus := picture_bus src\<rparr>"


definition restore :: "('bus, 'cpu, 'cb, 'pbus, 'cart, 'ctl) Emulator
    \<Rightarrow> ('bus, 'cpu, 'cb, 'pbus) Core \<Rightarrow> ('bus, 'cpu, 'cb, 'pbus, 'cart, 'ctl) Emulator" where
  "restore e src = e\<lparr>core := Core_assign (core e) src\<rparr>"

section \<open>Operations whose code is not among the sources at hand\<close>

text \<open>
  Modelled from the spec: \<^verbatim>\<open>PPU::get_status\<close>, which ppu.hpp declares
  (\<^verbatim>\<open>NES_Byte get_status();\<close>) and ppu.cpp, a file that is not at hand, defines. The spec:
  ``Reading the status register has the documented side effect of clearing the vblank
  flag and resetting the address-latch toggle used to disambiguate the two-write
  scroll/address protocol.'' The toggle is the member \<^verbatim>\<open>is_first_write\<close>; reset, the next
  write is a first write. The spec gives no layout of the returned byte: the model puts
  the vblank flag in bit 7 and the sprite-zero hit in bit 6, where the console's status
  register has them.
\<close>

definition get_status :: "'cb PPU \<Rightarrow> NES_Byte \<times> 'cb PPU" where
  "get_status p =
     (push_bit 6 (of_bool (is_sprite_zero_hit p)) OR push_bit 7 (of_bool (is_vblank p)),
      p\<lparr>is_vblank := False, is_first_write := True\<rparr>)"

text \<open>
  Modelled from the spec: the sprite evaluation of \<^verbatim>\<open>PPU::cycle\<close>, which ppu.hpp declares
  and ppu.cpp, a file that is not at hand, defines. The spec: the render state ``performs
  OAM sprite evaluation for the next scanline (max 8 sprites kept)'', and the
  ``scanline-sprite buffer never exceeds 8 entries (9th+ sprite on a line is dropped)''.
  The evaluation empties the buffer and goes through the 64 OAM entries in order; an entry
  that intersects the scanline is appended with \<^verbatim>\<open>push_back\<close> while fewer than 8 are kept and
  dropped otherwise. The spec does not say when an entry intersects a scanline: the test is
  the parameter \<open>on_line\<close>, a predicate on the index of the entry.
\<close>

definition keep_sprite :: "NES_Byte \<Rightarrow> NES_Byte static_vector \<Rightarrow> error + NES_Byte static_vector" where
  "keep_sprite i buf = (if current_size buf < 8 then push_back i buf else Inr buf)"

text \<open>
  Modelled from the spec: the pass of the evaluation over the OAM entries \<open>i # rest\<close>
  still to be looked at (the loop of \<^verbatim>\<open>PPU::cycle\<close> in ppu.cpp, not at hand), keeping or
  dropping each entry that intersects the scanline.
\<close>

fun evaluate_sprites :: "(nat \<Rightarrow> bool) \<Rightarrow> nat list \<Rightarrow> NES_Byte static_vector
    \<Rightarrow> error + NES_Byte static_vector" where
  "evaluate_sprites on_line [] buf = Inr buf"
| "evaluate_sprites on_line (i # rest) buf =
     (if on_line i
      then (case keep_sprite (of_nat i) buf of
              Inl e \<Rightarrow> Inl e
            | Inr buf' \<Rightarrow> evaluate_sprites on_line rest buf')
      else evaluate_sprites on_line rest buf)"

text \<open>
  Modelled from the spec: the whole evaluation for one scanline (part of \<^verbatim>\<open>PPU::cycle\<close> in
  ppu.cpp, not at hand): the buffer is emptied, then the entries 0 to 63 are gone through.
\<close>

definition sprite_evaluation :: "(nat \<Rightarrow> bool) \<Rightarrow> 'cb PPU \<Rightarrow> error + 'cb PPU" where
  "sprite_evaluation on_line p =
     (case evaluate_sprites on_line [0..<64] (clear (scanline_sprites p)) of
        Inl e \<Rightarrow> Inl e
      | Inr buf \<Rightarrow> Inr (p\<lparr>scanline_sprites := buf\<rparr>))"

text \<open>
  Modelled from the spec: restore by slot index. lib_nes_env.cpp binds
  \<^verbatim>\<open>Emulator::backup\<close> and \<^verbatim>\<open>Emulator::restore\<close> with an argument \<^verbatim>\<open>slot\<close> and reads
  \<^verbatim>\<open>Emulator::NUM_BACKUP_SLOTS\<close>; emulator.hpp declares none of the three (its
  \<^verbatim>\<open>restore\<close> takes a pointer to a \<^verbatim>\<open>Core\<close> and checks nothing), so the slot table, its
  capacity and the range check are not in the sources at hand. The spec: ``Multiple named
  slots (bounded by a fixed capacity) allow storing several independent save states;
  requesting a slot index outside the valid range is an error'', and ``Restoring an
  out-of-range snapshot slot index is rejected and leaves the live engine state
  unmodified.'' The table is the list \<open>slots\<close>, its length the capacity; a valid index
  restores from its entry with \<open>restore\<close>. The result is what was reported and the
  emulator after the call.
\<close>

definition restore_slot :: "('bus, 'cpu, 'cb, 'pbus) Core list \<Rightarrow> int
    \<Rightarrow> ('bus, 'cpu, 'cb, 'pbus, 'cart, 'ctl) Emulator
    \<Rightarrow> error option \<times> ('bus, 'cpu, 'cb, 'pbus, 'cart, 'ctl) Emulator" where
  "restore_slot slots slot e =
     (if slot < 0 \<or> int (length slots) \<le> slot
      then (Some Slot_out_of_range, e)
      else (None, restore e (slots ! nat slot)))"

text \<open>
  An emulator to run the theorems on: 2 KiB of zeroed RAM for the bus, the unit
  \<open>PPU_zero\<close>, a black frame buffer; the parts that play no role are of type \<open>unit\<close>.
\<close>

definition Emulator_zero :: "(NES_Byte list, unit, unit, unit, unit, unit) Emulator" where
  "Emulator_zero =
     \<lparr>core = \<lparr>bus = replicate 2048 0, cpu = (), ppu = PPU_zero, picture_bus = ()\<rparr>,
      cartridge = (), controllers = [(), ()],
      framebuffer = replicate 240 (replicate 256 0)\<rparr>"

text \<open>
  Modelled from the spec: the part of \<^verbatim>\<open>PPU::cycle\<close> (ppu.cpp, not at hand) that keeps the
  time and the vblank flag. The spec: the unit advances ``one pixel-clock (dot) per
  cycle call'', with ``scanline in [0,261]; dot in [0,340]'', and its states change
  ``purely by (scanline, dot) counters'': pre-render (scanline 261) goes to render ``at
  dot rollover into scanline 0'' and ``clears per-frame sprite-zero-hit/overflow
  flags''; render is scanlines 0 to 239; post-render (scanline 240) ``transitions to
  VERTICAL_BLANK at its end''; vertical blank (scanlines 241 to 260) ``sets the vblank
  status flag at entry'' and ``clears the flag on exit''; ``odd/even frame parity toggles
  a one-dot skip on the pre-render line''. The dot is the member \<^verbatim>\<open>cycles\<close>. The spec does
  not say at which dot the parity flips: the model flips it on leaving vertical blank.
  Pixel output, sprite evaluation and the interrupt callback write other members or
  other objects and are not part of this function.
\<close>

definition PPU_cycle_timing :: "'cb PPU \<Rightarrow> 'cb PPU" where
  "PPU_cycle_timing p =
     (if cycles p < (if pipeline_state p = PRE_RENDER \<and> \<not> is_even_frame p
                     then SCANLINE_CYCLE_LENGTH - 2 else SCANLINE_CYCLE_LENGTH - 1)
      then p\<lparr>cycles := cycles p + 1\<rparr>
      else (case pipeline_state p of
              PRE_RENDER \<Rightarrow>
                p\<lparr>cycles := 0, scanline := 0, pipeline_state := RENDER,
                  is_sprite_zero_hit := False\<rparr>
            | RENDER \<Rightarrow>
                (if scanline p < VISIBLE_SCANLINES - 1
                 then p\<lparr>cycles := 0, scanline := scanline p + 1\<rparr>
                 else p\<lparr>cycles := 0, scanline := VISIBLE_SCANLINES,
                        pipeline_state := POST_RENDER\<rparr>)
            | POST_RENDER \<Rightarrow>
                p\<lparr>cycles := 0, scanline := VISIBLE_SCANLINES + 1,
                  pipeline_state := VERTICAL_BLANK, is_vblank := True\<rparr>
            | VERTICAL_BLANK \<Rightarrow>
                (if scanline p < FRAME_END_SCANLINE - 1
                 then p\<lparr>cycles := 0, scanline := scanline p + 1\<rparr>
                 else p\<lparr>cycles := 0, scanline := FRAME_END_SCANLINE,
                        pipeline_state := PRE_RENDER, is_vblank := False,
                        is_even_frame := \<not> is_even_frame p\<rparr>)))"

text \<open>
  The unit is on one of the vertical-blank scanlines, 241 to 260, at one of its 341 dots;
  and the number of cycles it can still make before the cycle that leaves vertical blank.
\<close>

definition in_vertical_blank :: "'cb PPU \<Rightarrow> bool" where
  "in_vertical_blank p \<longleftrightarrow>
     pipeline_state p = VERTICAL_BLANK
     \<and> VISIBLE_SCANLINES + 1 \<le> scanline p \<and> scanline p \<le> FRAME_END_SCANLINE - 1
     \<and> 0 \<le> cycles p \<and> cycles p \<le> SCANLINE_CYCLE_LENGTH - 1"

definition vertical_blank_left :: "'cb PPU \<Rightarrow> int" where
  "vertical_blank_left p =
     (FRAME_END_SCANLINE - 1 - scanline p) * SCANLINE_CYCLE_LENGTH
       + (SCANLINE_CYCLE_LENGTH - 1 - cycles p)"

text \<open>
  A PPU at the first dot of vertical blank with the vblank flag raised, as the cycle that
  ends the post-render scanline leaves it.
\<close>

definition PPU_vblank_entry :: "unit PPU" where
  "PPU_vblank_entry =
     PPU_zero\<lparr>pipeline_state := VERTICAL_BLANK, scanline := 241, cycles := 0, is_vblank := True\<rparr>"

section \<open>Objects at addresses (emulator.hpp, emulator.cpp)\<close>

text \<open>
  The \<^verbatim>\<open>std::function\<close> members. The constructor of \<^verbatim>\<open>Emulator\<close> (emulator.cpp, lines 66 to
  84) stores lambdas with the capture \<^verbatim>\<open>[&]\<close> in the bus and in the PPU: each holds \<^verbatim>\<open>this\<close>,
  the address of the emulator that built it, and works on the members of that emulator.
  \<open>Bound_to a\<close> is such a lambda of the emulator at address \<open>a\<close>; \<open>No_target\<close> is a
  default-constructed \<^verbatim>\<open>std::function\<close>, as in a \<^verbatim>\<open>Core\<close> that no constructor has wired.
\<close>

type_synonym addr = nat









section \<open>Properties of static_vector\<close>

lemma sv_inv_new: "sv_inv N (static_vector_new N z)"
  by (simp add: sv_inv_def static_vector_new_def)

lemma sv_apply_inv:
  assumes "sv_inv N s" and "sv_apply N x s = Inr t"
  shows "sv_inv N t"
proof (cases x)
  case (Push_back v)
  with assms show ?thesis
    by (auto simp: sv_inv_def push_back_def array_store_def split: if_splits)
next
  case (Reserve n)
  with assms show ?thesis
    by (auto simp: sv_inv_def reserve_def split: if_splits)
next
  case (Resize n)
  with assms show ?thesis
    by (auto simp: sv_inv_def resize_def split: if_splits)
next
  case Clear
  with assms show ?thesis
    by (auto simp: sv_inv_def clear_def)
qed

lemma sv_apply_in_bounds:
  assumes "sv_inv N s"
  shows "sv_apply N x s \<noteq> Inl Out_of_bounds"
proof (cases x)
  case (Push_back v)
  with assms show ?thesis
    by (auto simp: sv_inv_def push_back_def array_store_def)
qed (auto simp: reserve_def resize_def)

lemma sv_run_inv:
  "sv_inv N s \<Longrightarrow> sv_inv N (snd (sv_run N ops s)) \<and> Out_of_bounds \<notin> set (fst (sv_run N ops s))"
proof (induction ops arbitrary: s)
  case Nil
  then show ?case by simp
next
  case (Cons x xs)
  show ?case
  proof (cases "sv_apply N x s")
    case (Inl e)
    with sv_apply_in_bounds [OF Cons.prems, of x] have "e \<noteq> Out_of_bounds" by auto
    with Inl Cons.IH [OF Cons.prems] show ?thesis
      by (auto split: prod.splits)
  next
    case (Inr t)
    from sv_apply_inv [OF Cons.prems Inr] have "sv_inv N t" .
    with Inr Cons.IH [of t] show ?thesis by simp
  qed
qed

text \<open>
  C9. For a \<^verbatim>\<open>static_vector<T, N>\<close> that satisfies
  \<open>current_size \<le> reserved_size \<le> N\<close>, every sequence of \<^verbatim>\<open>push_back\<close>, \<^verbatim>\<open>reserve\<close>,
  \<^verbatim>\<open>resize\<close> and \<^verbatim>\<open>clear\<close> calls (throwing calls caught by the caller) ends in a vector
  that satisfies it again, and no call indexes the array out of bounds. \<^verbatim>\<open>push_back\<close> on a
  full container throws the length error and yields no written vector; \<^verbatim>\<open>reserve\<close> beyond
  \<open>N\<close> and \<^verbatim>\<open>resize\<close> beyond \<open>reserved_size\<close> throw the length error and yield no changed
  vector. A successful \<^verbatim>\<open>push_back\<close> writes exactly the cell \<open>current_size < N\<close>.
\<close>

theorem static_vector_invariant:
  assumes "sv_inv N s"
  shows "sv_inv N (snd (sv_run N ops s))
    \<and> Out_of_bounds \<notin> set (fst (sv_run N ops s))
    \<and> (current_size s \<ge> reserved_size s \<longrightarrow>
           push_back v s = Inl (Length_error ''static_vector: container is full'')
           \<and> sv_run N [Push_back v] s = ([Length_error ''static_vector: container is full''], s))
    \<and> (current_size s < reserved_size s \<longrightarrow>
           push_back v s = Inr (s\<lparr>elems := (elems s)[current_size s := v],
                                   current_size := current_size s + 1\<rparr>)
           \<and> current_size s < N)
    \<and> (n > N \<longrightarrow>
           reserve N n s = Inl (Length_error ''static_vector: cannot reserve beyond max capacity'')
           \<and> snd (sv_run N [Reserve n] s) = s)
    \<and> (m > reserved_size s \<longrightarrow>
           resize m s = Inl (Length_error ''static_vector: cannot resize beyond reserved capacity'')
           \<and> snd (sv_run N [Resize m] s) = s)"
proof -
  have run: "sv_inv N (snd (sv_run N ops s)) \<and> Out_of_bounds \<notin> set (fst (sv_run N ops s))"
    using assms by (rule sv_run_inv)
  have full: "current_size s \<ge> reserved_size s \<longrightarrow>
           push_back v s = Inl (Length_error ''static_vector: container is full'')
           \<and> sv_run N [Push_back v] s = ([Length_error ''static_vector: container is full''], s)"
    by (simp add: push_back_def)
  have room: "current_size s < reserved_size s \<longrightarrow>
           push_back v s = Inr (s\<lparr>elems := (elems s)[current_size s := v],
                                   current_size := current_size s + 1\<rparr>)
           \<and> current_size s < N"
    using assms by (simp add: push_back_def array_store_def sv_inv_def)
  have res: "n > N \<longrightarrow>
           reserve N n s = Inl (Length_error ''static_vector: cannot reserve beyond max capacity'')
           \<and> snd (sv_run N [Reserve n] s) = s"
    by (simp add: reserve_def)
  have rsz: "m > reserved_size s \<longrightarrow>
           resize m s = Inl (Length_error ''static_vector: cannot resize beyond reserved capacity'')
           \<and> snd (sv_run N [Resize m] s) = s"
    by (simp add: resize_def)
  from run full room res rsz show ?thesis by blast
qed

text \<open>
  The theorem at two vectors of capacity 2 over bytes: a full one, where \<^verbatim>\<open>push_back\<close>,
  \<^verbatim>\<open>reserve(3)\<close> and \<^verbatim>\<open>resize(3)\<close> throw, and a fresh one, where \<^verbatim>\<open>push_back\<close> writes cell 0.
\<close>

theorem static_vector_invariant_witness:
  "sv_inv 2 \<lparr>elems = [1, 2 :: NES_Byte], current_size = 2, reserved_size = 2\<rparr>
   \<and> sv_inv 2 (snd (sv_run 2 [Push_back 7, Reserve 3, Resize 1, Clear, Push_back 9]
                    \<lparr>elems = [1, 2 :: NES_Byte], current_size = 2, reserved_size = 2\<rparr>))
   \<and> push_back 7 \<lparr>elems = [1, 2 :: NES_Byte], current_size = 2, reserved_size = 2\<rparr>
       = Inl (Length_error ''static_vector: container is full'')
   \<and> reserve 2 3 \<lparr>elems = [1, 2 :: NES_Byte], current_size = 2, reserved_size = 2\<rparr>
       = Inl (Length_error ''static_vector: cannot reserve beyond max capacity'')
   \<and> resize 3 \<lparr>elems = [1, 2 :: NES_Byte], current_size = 2, reserved_size = 2\<rparr>
       = Inl (Length_error ''static_vector: cannot resize beyond reserved capacity'')
   \<and> sv_inv 2 \<lparr>elems = [0, 0 :: NES_Byte], current_size = 0, reserved_size = 2\<rparr>
   \<and> push_back 7 \<lparr>elems = [0, 0 :: NES_Byte], current_size = 0, reserved_size = 2\<rparr>
       = Inr \<lparr>elems = [7, 0], current_size = 1, reserved_size = 2\<rparr>"
proof -
  have full: "sv_inv 2 \<lparr>elems = [1, 2 :: NES_Byte], current_size = 2, reserved_size = 2\<rparr>"
    by (simp add: sv_inv_def)
  have fresh: "sv_inv 2 \<lparr>elems = [0, 0 :: NES_Byte], current_size = 0, reserved_size = 2\<rparr>"
    by (simp add: sv_inv_def)
  note a = static_vector_invariant [OF full,
      of "[Push_back 7, Reserve 3, Resize 1, Clear, Push_back 9]" 7 3 3]
  note b = static_vector_invariant [OF fresh, of "[]" 7 3 3]
  have a1: "sv_inv 2 (snd (sv_run 2 [Push_back 7, Reserve 3, Resize 1, Clear, Push_back 9]
                    \<lparr>elems = [1, 2 :: NES_Byte], current_size = 2, reserved_size = 2\<rparr>))"
    by (rule a [THEN conjunct1])
  have a3: "push_back 7 \<lparr>elems = [1, 2 :: NES_Byte], current_size = 2, reserved_size = 2\<rparr>
       = Inl (Length_error ''static_vector: container is full'')"
    using a [THEN conjunct2, THEN conjunct2, THEN conjunct1] by simp
  have a5: "reserve 2 3 \<lparr>elems = [1, 2 :: NES_Byte], current_size = 2, reserved_size = 2\<rparr>
       = Inl (Length_error ''static_vector: cannot reserve beyond max capacity'')"
    using a [THEN conjunct2, THEN conjunct2, THEN conjunct2, THEN conjunct2, THEN conjunct1]
    by simp
  have a6: "resize 3 \<lparr>elems = [1, 2 :: NES_Byte], current_size = 2, reserved_size = 2\<rparr>
       = Inl (Length_error ''static_vector: cannot resize beyond reserved capacity'')"
    using a [THEN conjunct2, THEN conjunct2, THEN conjunct2, THEN conjunct2, THEN conjunct2]
    by simp
  have b4: "push_back 7 \<lparr>elems = [0, 0 :: NES_Byte], current_size = 0, reserved_size = 2\<rparr>
       = Inr \<lparr>elems = [7, 0], current_size = 1, reserved_size = 2\<rparr>"
    using b [THEN conjunct2, THEN conjunct2, THEN conjunct2, THEN conjunct1] by simp
  from full a1 a3 a5 a6 fresh b4 show ?thesis by (intro conjI)
qed

section \<open>Properties of the OAM registers\<close>

lemma unat_byte_less: "unat (a :: NES_Byte) < 256"
  using unsigned_less [of a, where 'a = nat] by simp

lemma set_OAM_data_ok:
  assumes "length (elems (sprite_memory p)) = 256"
  shows "set_OAM_data v p =
    Inr (p\<lparr>sprite_memory := (sprite_memory p)\<lparr>elems := (elems (sprite_memory p))[unat (sprite_data_address p) := v]\<rparr>,
           sprite_data_address := sprite_data_address p + 1\<rparr>)"
  using assms unat_byte_less [of "sprite_data_address p"]
  by (simp add: set_OAM_data_def array_store_def)

lemma get_OAM_data_ok:
  assumes "length (elems (sprite_memory p)) = 256"
  shows "get_OAM_data p = Inr (elems (sprite_memory p) ! unat (sprite_data_address p), p)"
  using assms unat_byte_less [of "sprite_data_address p"]
  by (simp add: get_OAM_data_def array_load_def)

lemma byte_offset_neq:
  assumes "i < 255"
  shows "unat (a :: NES_Byte) \<noteq> unat (a + 1 + of_nat i)"
proof
  assume "unat a = unat (a + 1 + of_nat i)"
  then have "a = a + 1 + of_nat i" by (simp only: word_unat_eq_iff [symmetric])
  then have "(of_nat (Suc i) :: NES_Byte) = 0" by simp
  moreover have "(of_nat (Suc i) :: NES_Byte) \<noteq> 0"
    using assms by (intro of_nat_neq_0) simp_all
  ultimately show False by contradiction
qed

lemma OAM_data_writes_result:
  assumes "length (elems (sprite_memory p)) = 256" and "length bs \<le> 256"
  shows "\<exists>p'. OAM_data_writes bs p = Inr p'
     \<and> sprite_data_address p' = sprite_data_address p + of_nat (length bs)
     \<and> length (elems (sprite_memory p')) = 256
     \<and> (\<forall>j. (\<forall>i<length bs. j \<noteq> unat (sprite_data_address p + of_nat i)) \<longrightarrow>
            elems (sprite_memory p') ! j = elems (sprite_memory p) ! j)
     \<and> (\<forall>i<length bs. elems (sprite_memory p') ! unat (sprite_data_address p + of_nat i) = bs ! i)
     \<and> p' = p\<lparr>sprite_memory := (sprite_memory p)\<lparr>elems := elems (sprite_memory p')\<rparr>,
              sprite_data_address := sprite_data_address p'\<rparr>"
  using assms
proof (induction bs arbitrary: p)
  case Nil
  then show ?case by simp
next
  case (Cons b bs)
  let ?a = "sprite_data_address p"
  let ?q = "p\<lparr>sprite_memory := (sprite_memory p)\<lparr>elems := (elems (sprite_memory p))[unat ?a := b]\<rparr>,
           sprite_data_address := ?a + 1\<rparr>"
  have step: "set_OAM_data b p = Inr ?q"
    using Cons.prems(1) by (rule set_OAM_data_ok)
  have lenq: "length (elems (sprite_memory ?q)) = 256"
    using Cons.prems(1) by simp
  have lenbs: "length bs \<le> 256" "length bs \<le> 255"
    using Cons.prems(2) by simp_all
  from Cons.IH [OF lenq lenbs(1)] obtain p' where
    run: "OAM_data_writes bs ?q = Inr p'"
    and addr: "sprite_data_address p' = ?a + 1 + of_nat (length bs)"
    and len: "length (elems (sprite_memory p')) = 256"
    and frame: "\<And>j. (\<forall>i<length bs. j \<noteq> unat (?a + 1 + of_nat i)) \<Longrightarrow>
            elems (sprite_memory p') ! j = (elems (sprite_memory p))[unat ?a := b] ! j"
    and cont: "\<And>i. i < length bs \<Longrightarrow> elems (sprite_memory p') ! unat (?a + 1 + of_nat i) = bs ! i"
    and rest: "p' = ?q\<lparr>sprite_memory := (sprite_memory ?q)\<lparr>elems := elems (sprite_memory p')\<rparr>,
              sprite_data_address := sprite_data_address p'\<rparr>"
    by auto
  have a_lt: "unat ?a < 256" by (rule unat_byte_less)
  have first: "elems (sprite_memory p') ! unat ?a = b"
  proof -
    have "\<forall>i<length bs. unat ?a \<noteq> unat (?a + 1 + of_nat i)"
    proof (intro allI impI)
      fix i assume "i < length bs"
      with lenbs(2) have "i < 255" by simp
      then show "unat ?a \<noteq> unat (?a + 1 + of_nat i)" by (rule byte_offset_neq)
    qed
    from frame [OF this] show ?thesis
      using a_lt Cons.prems(1) by simp
  qed
  have c1: "OAM_data_writes (b # bs) p = Inr p'"
    using step run by simp
  have c2: "sprite_data_address p' = ?a + of_nat (length (b # bs))"
    using addr by simp
  have c4: "\<forall>j. (\<forall>i<length (b # bs). j \<noteq> unat (?a + of_nat i)) \<longrightarrow>
            elems (sprite_memory p') ! j = elems (sprite_memory p) ! j"
  proof (intro allI impI)
    fix j
    assume h: "\<forall>i<length (b # bs). j \<noteq> unat (?a + of_nat i)"
    then have "j \<noteq> unat ?a" by fastforce
    moreover have "\<forall>i<length bs. j \<noteq> unat (?a + 1 + of_nat i)"
    proof (intro allI impI)
      fix i assume "i < length bs"
      then have "Suc i < length (b # bs)" by simp
      with h have "j \<noteq> unat (?a + of_nat (Suc i))" by blast
      then show "j \<noteq> unat (?a + 1 + of_nat i)" by (simp add: add.assoc)
    qed
    ultimately show "elems (sprite_memory p') ! j = elems (sprite_memory p) ! j"
      using frame [of j] by simp
  qed
  have c5: "\<forall>i<length (b # bs). elems (sprite_memory p') ! unat (?a + of_nat i) = (b # bs) ! i"
  proof (intro allI impI)
    fix i assume "i < length (b # bs)"
    show "elems (sprite_memory p') ! unat (?a + of_nat i) = (b # bs) ! i"
    proof (cases i)
      case 0
      with first show ?thesis by simp
    next
      case (Suc k)
      with \<open>i < length (b # bs)\<close> have "k < length bs" by simp
      from cont [OF this] Suc show ?thesis by (simp add: add.assoc)
    qed
  qed
  have c6: "p' = p\<lparr>sprite_memory := (sprite_memory p)\<lparr>elems := elems (sprite_memory p')\<rparr>,
              sprite_data_address := sprite_data_address p'\<rparr>"
    using rest by simp
  from c1 c2 len c4 c5 c6 show ?case by blast
qed

lemma unat_byte_offset: "unat ((a :: NES_Byte) + of_nat i) = (unat a + i) mod 256"
  by (simp add: unat_word_ariths unat_of_nat mod_simps)

lemma PPU_wf_zero: "PPU_wf PPU_zero"
  by (simp add: PPU_wf_def PPU_zero_def static_vector_new_def)

text \<open>
  C5. For every starting OAM address \<open>a\<close>: writing \<open>a\<close> to the OAM address register and
  then any 256 bytes \<open>bs\<close> to the OAM data register succeeds and leaves OAM holding those
  bytes in write order from index \<open>a\<close>, wrapping from 255 to 0: cell \<open>(a + i) mod 256\<close>
  holds byte \<open>i\<close>, that is, OAM rotated left by \<open>a\<close> is \<open>bs\<close>; the address is back at
  \<open>a\<close>. Each data write stores at the current address and adds one to it modulo 256; a
  data read returns the addressed cell and leaves the unit, its address included, as it was.
\<close>

theorem OAM_write_256:
  assumes "PPU_wf p" and "length bs = 256"
  shows "\<exists>p'. OAM_data_writes bs (set_OAM_address a p) = Inr p'
    \<and> (\<forall>i<256. elems (sprite_memory p') ! ((unat a + i) mod 256) = bs ! i)
    \<and> rotate (unat a) (elems (sprite_memory p')) = bs
    \<and> sprite_data_address p' = a
    \<and> set_OAM_data v p =
        Inr (p\<lparr>sprite_memory := (sprite_memory p)
                 \<lparr>elems := (elems (sprite_memory p))[unat (sprite_data_address p) := v]\<rparr>,
               sprite_data_address := sprite_data_address p + 1\<rparr>)
    \<and> unat (sprite_data_address p + 1) = (unat (sprite_data_address p) + 1) mod 256
    \<and> get_OAM_data p = Inr (elems (sprite_memory p) ! unat (sprite_data_address p), p)"
proof -
  have len: "length (elems (sprite_memory p)) = 256"
    using assms(1) by (simp add: PPU_wf_def)
  let ?s = "set_OAM_address a p"
  have len': "length (elems (sprite_memory ?s)) = 256" and addr0: "sprite_data_address ?s = a"
    using len by (simp_all add: set_OAM_address_def)
  have "length bs \<le> 256" using assms(2) by simp
  from OAM_data_writes_result [OF len' this] obtain p' where
    run: "OAM_data_writes bs ?s = Inr p'"
    and addr: "sprite_data_address p' = a + of_nat (length bs)"
    and plen: "length (elems (sprite_memory p')) = 256"
    and cont: "\<And>i. i < length bs \<Longrightarrow> elems (sprite_memory p') ! unat (a + of_nat i) = bs ! i"
    unfolding addr0 by blast
  have pt: "\<forall>i<256. elems (sprite_memory p') ! ((unat a + i) mod 256) = bs ! i"
    using cont assms(2) by (simp add: unat_byte_offset)
  have rot: "rotate (unat a) (elems (sprite_memory p')) = bs"
  proof (rule nth_equalityI)
    show "length (rotate (unat a) (elems (sprite_memory p'))) = length bs"
      using plen assms(2) by simp
  next
    fix i assume "i < length (rotate (unat a) (elems (sprite_memory p')))"
    then have i: "i < 256" using plen by simp
    then have "rotate (unat a) (elems (sprite_memory p')) ! i
        = elems (sprite_memory p') ! ((unat a + i) mod 256)"
      using plen by (simp add: nth_rotate)
    with pt i show "rotate (unat a) (elems (sprite_memory p')) ! i = bs ! i" by simp
  qed
  have ret: "sprite_data_address p' = a"
    using addr assms(2) by simp
  have inc: "unat (sprite_data_address p + 1) = (unat (sprite_data_address p) + 1) mod 256"
    using unat_byte_offset [of "sprite_data_address p" 1] by simp
  from run pt rot ret set_OAM_data_ok [OF len, of v] inc get_OAM_data_ok [OF len]
  show ?thesis by blast
qed

text \<open>The theorem run from address 254 on the bytes 0, 1, ..., 255.\<close>

theorem OAM_write_256_witness:
  "PPU_wf PPU_zero \<and> length (map of_nat [0..<256] :: NES_Byte list) = 256
   \<and> (\<exists>p'. OAM_data_writes (map of_nat [0..<256]) (set_OAM_address 254 PPU_zero) = Inr p'
         \<and> rotate 254 (elems (sprite_memory p')) = map of_nat [0..<256]
         \<and> sprite_data_address p' = 254)"
proof -
  have len: "length (map of_nat [0..<256] :: NES_Byte list) = 256" by simp
  from OAM_write_256 [OF PPU_wf_zero len, of 254 0] PPU_wf_zero len
  show ?thesis by auto
qed

text \<open>
  C10. OAM has \<open>64 * 4 = 256\<close> cells and the sprite data address is a byte, so at every
  value of the address \<^verbatim>\<open>get_OAM_data\<close> and \<^verbatim>\<open>set_OAM_data\<close> index a cell of OAM (neither
  ends in \<open>Out_of_bounds\<close>); the address after a write is the old one plus one modulo 256,
  again an index of OAM, and both \<^verbatim>\<open>set_OAM_data\<close> and \<^verbatim>\<open>set_OAM_address\<close> keep the array
  at its 256 cells, so the same holds after any further register access.
\<close>

theorem OAM_access_in_bounds:
  assumes "PPU_wf p"
  shows "unat (sprite_data_address p) < length (elems (sprite_memory p))
    \<and> get_OAM_data p = Inr (elems (sprite_memory p) ! unat (sprite_data_address p), p)
    \<and> set_OAM_data v p =
        Inr (p\<lparr>sprite_memory := (sprite_memory p)
                 \<lparr>elems := (elems (sprite_memory p))[unat (sprite_data_address p) := v]\<rparr>,
               sprite_data_address := sprite_data_address p + 1\<rparr>)
    \<and> (\<exists>q. set_OAM_data v p = Inr q \<and> PPU_wf q
          \<and> unat (sprite_data_address q) = (unat (sprite_data_address p) + 1) mod 256
          \<and> unat (sprite_data_address q) < length (elems (sprite_memory q)))
    \<and> PPU_wf (set_OAM_address a p)
    \<and> unat (sprite_data_address (set_OAM_address a p))
        < length (elems (sprite_memory (set_OAM_address a p)))"
proof -
  have len: "length (elems (sprite_memory p)) = 256"
    using assms by (simp add: PPU_wf_def)
  have idx: "unat (sprite_data_address p) < length (elems (sprite_memory p))"
    using len unat_byte_less [of "sprite_data_address p"] by simp
  let ?q = "p\<lparr>sprite_memory := (sprite_memory p)
                 \<lparr>elems := (elems (sprite_memory p))[unat (sprite_data_address p) := v]\<rparr>,
               sprite_data_address := sprite_data_address p + 1\<rparr>"
  have w: "set_OAM_data v p = Inr ?q" using len by (rule set_OAM_data_ok)
  have wfq: "PPU_wf ?q" using assms by (simp add: PPU_wf_def)
  have inc: "unat (sprite_data_address ?q) = (unat (sprite_data_address p) + 1) mod 256"
    using unat_byte_offset [of "sprite_data_address p" 1] by simp
  have idxq: "unat (sprite_data_address ?q) < length (elems (sprite_memory ?q))"
    using len unat_byte_less [of "sprite_data_address ?q"] by simp
  have wfa: "PPU_wf (set_OAM_address a p)"
    using assms by (simp add: PPU_wf_def set_OAM_address_def)
  have idxa: "unat (sprite_data_address (set_OAM_address a p))
        < length (elems (sprite_memory (set_OAM_address a p)))"
    using len unat_byte_less [of a] by (simp add: set_OAM_address_def)
  from idx get_OAM_data_ok [OF len] w wfq inc idxq wfa idxa show ?thesis by blast
qed

text \<open>The theorem at address 255, where the write wraps the address to 0.\<close>

theorem OAM_access_in_bounds_witness:
  "PPU_wf PPU_zero
   \<and> get_OAM_data (set_OAM_address 255 PPU_zero) = Inr (0, set_OAM_address 255 PPU_zero)
   \<and> (\<exists>q. set_OAM_data 7 (set_OAM_address 255 PPU_zero) = Inr q \<and> PPU_wf q
         \<and> sprite_data_address q = 0)"
proof -
  have wf: "PPU_wf (set_OAM_address 255 PPU_zero)"
    using OAM_access_in_bounds [OF PPU_wf_zero, of 0 255] by blast
  have z: "elems (sprite_memory (set_OAM_address 255 PPU_zero)) ! 255 = 0"
    by (simp add: set_OAM_address_def PPU_zero_def static_vector_new_def)
  have a: "sprite_data_address (set_OAM_address 255 PPU_zero) = 255"
    by (simp add: set_OAM_address_def)
  from OAM_access_in_bounds [OF wf, of 7 0] PPU_wf_zero z a
  show ?thesis by auto
qed

section \<open>Properties of stepping\<close>

lemma Core_step_unfold:
  "Core_step ppu_cycle cpu_cycle e = cpu_cycle (ppu_cycle (ppu_cycle (ppu_cycle e)))"
  by (simp add: Core_step_def Core_ppu_step_def)

lemma Core_step_logged:
  "Core_step (logged PPU_cycle ppu_cycle) (logged CPU_cycle cpu_cycle) (e, tr)
     = (Core_step ppu_cycle cpu_cycle e, tr @ [PPU_cycle, PPU_cycle, PPU_cycle, CPU_cycle])"
  by (simp add: Core_step_def Core_ppu_step_def logged_def)

lemma Core_step_logged_funpow:
  "(Core_step (logged PPU_cycle ppu_cycle) (logged CPU_cycle cpu_cycle) ^^ n) (e, tr)
     = ((Core_step ppu_cycle cpu_cycle ^^ n) e,
        tr @ concat (replicate n [PPU_cycle, PPU_cycle, PPU_cycle, CPU_cycle]))"
proof (induction n arbitrary: e tr)
  case 0
  show ?case by simp
next
  case (Suc n)
  have "(Core_step (logged PPU_cycle ppu_cycle) (logged CPU_cycle cpu_cycle) ^^ Suc n) (e, tr)
      = (Core_step (logged PPU_cycle ppu_cycle) (logged CPU_cycle cpu_cycle) ^^ n)
          (Core_step ppu_cycle cpu_cycle e, tr @ [PPU_cycle, PPU_cycle, PPU_cycle, CPU_cycle])"
    by (simp only: funpow_Suc_right o_apply Core_step_logged)
  also have "\<dots> = ((Core_step ppu_cycle cpu_cycle ^^ n) (Core_step ppu_cycle cpu_cycle e),
        (tr @ [PPU_cycle, PPU_cycle, PPU_cycle, CPU_cycle])
          @ concat (replicate n [PPU_cycle, PPU_cycle, PPU_cycle, CPU_cycle]))"
    by (rule Suc.IH)
  also have "\<dots> = ((Core_step ppu_cycle cpu_cycle ^^ Suc n) e,
        tr @ concat (replicate (Suc n) [PPU_cycle, PPU_cycle, PPU_cycle, CPU_cycle]))"
    by (simp only: funpow_Suc_right o_apply replicate_Suc concat.simps append_assoc)
  finally show ?case .
qed

lemma Emulator_step_loop_funpow:
  "Emulator_step_loop ppu_cycle cpu_cycle i e
     = (Core_step ppu_cycle cpu_cycle ^^ nat (CYCLES_PER_FRAME - i)) e"
proof (induction ppu_cycle cpu_cycle i e rule: Emulator_step_loop.induct)
  case (1 ppu_cycle cpu_cycle i e)
  show ?case
  proof (cases "i < CYCLES_PER_FRAME")
    case True
    then have n: "nat (CYCLES_PER_FRAME - i) = Suc (nat (CYCLES_PER_FRAME - (i + 1)))"
      by simp
    have "Emulator_step_loop ppu_cycle cpu_cycle i e
        = Emulator_step_loop ppu_cycle cpu_cycle (i + 1) (Core_step ppu_cycle cpu_cycle e)"
      using True by (subst Emulator_step_loop.simps) (simp only: if_True)
    also have "\<dots> = (Core_step ppu_cycle cpu_cycle ^^ nat (CYCLES_PER_FRAME - (i + 1)))
        (Core_step ppu_cycle cpu_cycle e)"
      using True by (rule "1.IH")
    also have "\<dots> = (Core_step ppu_cycle cpu_cycle ^^ nat (CYCLES_PER_FRAME - i)) e"
      by (simp only: n funpow_Suc_right o_apply)
    finally show ?thesis .
  next
    case False
    then have "nat (CYCLES_PER_FRAME - i) = 0" by simp
    moreover have "Emulator_step_loop ppu_cycle cpu_cycle i e = e"
      using False by (subst Emulator_step_loop.simps) (simp only: if_False)
    ultimately show ?thesis by simp
  qed
qed

lemma Emulator_step_funpow:
  "Emulator_step ppu_cycle cpu_cycle e = (Core_step ppu_cycle cpu_cycle ^^ nat CYCLES_PER_FRAME) e"
  by (simp only: Emulator_step_def Emulator_step_loop_funpow diff_zero)

text \<open>
  C3. Every call of \<^verbatim>\<open>Core::step\<close> calls the PPU's cycle function three times and then the
  CPU's cycle function once, in that order, and calls nothing else: its result is the CPU
  cycle applied to the third PPU cycle, and with the calls logged it appends exactly
  PPU, PPU, PPU, CPU to the log, whatever the two functions and the state are.
\<close>

theorem Core_step_three_ppu_one_cpu:
  "Core_step ppu_cycle cpu_cycle e = cpu_cycle (ppu_cycle (ppu_cycle (ppu_cycle e)))
   \<and> Core_step (logged PPU_cycle ppu_cycle) (logged CPU_cycle cpu_cycle) (e, tr)
       = (Core_step ppu_cycle cpu_cycle e, tr @ [PPU_cycle, PPU_cycle, PPU_cycle, CPU_cycle])"
  using Core_step_unfold [of ppu_cycle cpu_cycle e] Core_step_logged [of ppu_cycle cpu_cycle e tr]
  by (rule conjI)

text \<open>
  C4. Every call of \<^verbatim>\<open>Emulator::step\<close> makes exactly \<^verbatim>\<open>CYCLES_PER_FRAME\<close> = 29781 calls of
  \<^verbatim>\<open>Core::step\<close>, whatever the state: its result is the 29781-fold iterate of
  \<^verbatim>\<open>Core::step\<close>, and the logged calls are 29781 rounds of PPU, PPU, PPU, CPU. The count
  covers a frame: its 3 * 29781 PPU cycles are no fewer than the
  \<open>(FRAME_END_SCANLINE + 1) * SCANLINE_CYCLE_LENGTH\<close> = 262 * 341 dots of a frame.
\<close>

theorem Emulator_step_fixed_count:
  "Emulator_step ppu_cycle cpu_cycle e = (Core_step ppu_cycle cpu_cycle ^^ 29781) e
   \<and> Emulator_step (logged PPU_cycle ppu_cycle) (logged CPU_cycle cpu_cycle) (e, tr)
       = (Emulator_step ppu_cycle cpu_cycle e,
          tr @ concat (replicate 29781 [PPU_cycle, PPU_cycle, PPU_cycle, CPU_cycle]))
   \<and> nat CYCLES_PER_FRAME = 29781
   \<and> (FRAME_END_SCANLINE + 1) * SCANLINE_CYCLE_LENGTH \<le> 3 * CYCLES_PER_FRAME"
proof -
  have n: "nat CYCLES_PER_FRAME = 29781" by (simp add: CYCLES_PER_FRAME_def)
  have a: "Emulator_step ppu_cycle cpu_cycle e = (Core_step ppu_cycle cpu_cycle ^^ 29781) e"
    by (simp only: Emulator_step_funpow n)
  have b: "Emulator_step (logged PPU_cycle ppu_cycle) (logged CPU_cycle cpu_cycle) (e, tr)
       = (Emulator_step ppu_cycle cpu_cycle e,
          tr @ concat (replicate 29781 [PPU_cycle, PPU_cycle, PPU_cycle, CPU_cycle]))"
    by (simp only: Emulator_step_funpow n Core_step_logged_funpow)
  have c: "(FRAME_END_SCANLINE + 1) * SCANLINE_CYCLE_LENGTH \<le> 3 * CYCLES_PER_FRAME"
    by (simp add: FRAME_END_SCANLINE_def SCANLINE_CYCLE_LENGTH_def CYCLES_PER_FRAME_def)
  from a b n c show ?thesis by (intro conjI)
qed

section \<open>Properties of snapshot and restore\<close>













text \<open>
  C2. For every slot index below 0 or at least the capacity of the slot table, restore by
  slot index reports \<open>Slot_out_of_range\<close> and leaves the emulator, so its core, its RAM
  and its frame buffer, as it was.
\<close>

theorem restore_slot_out_of_range:
  fixes e :: "('bus, 'cpu, 'cb, 'pbus, 'cart, 'ctl) Emulator"
  assumes "slot < 0 \<or> int (length slots) \<le> slot"
  shows "restore_slot slots slot e = (Some Slot_out_of_range, e)
    \<and> fst (restore_slot slots slot e) = Some Slot_out_of_range
    \<and> core (snd (restore_slot slots slot e)) = core e
    \<and> bus (core (snd (restore_slot slots slot e))) = bus (core e)
    \<and> framebuffer (snd (restore_slot slots slot e)) = framebuffer e"
  using assms by (simp add: restore_slot_def)

text \<open>
  The theorem on a table of two slots at the indices 2 and -1; index 1 is accepted.
\<close>

theorem restore_slot_out_of_range_witness:
  "restore_slot [core Emulator_zero, core Emulator_zero] 2 Emulator_zero
      = (Some Slot_out_of_range, Emulator_zero)
   \<and> restore_slot [core Emulator_zero, core Emulator_zero] (- 1) Emulator_zero
      = (Some Slot_out_of_range, Emulator_zero)
   \<and> fst (restore_slot [core Emulator_zero, core Emulator_zero] 1 Emulator_zero) = None"
proof -
  have in_range: "fst (restore_slot [core Emulator_zero, core Emulator_zero] 1 Emulator_zero) = None"
    by (simp add: restore_slot_def)
  from restore_slot_out_of_range [of 2 "[core Emulator_zero, core Emulator_zero]" Emulator_zero]
    restore_slot_out_of_range [of "- 1" "[core Emulator_zero, core Emulator_zero]" Emulator_zero]
    in_range
  show ?thesis by simp
qed

section \<open>Properties of the status register\<close>

lemma get_status_bits:
  "bit (fst (get_status p)) 7 = is_vblank p"
  by (simp add: get_status_def bit_or_iff bit_push_bit_iff)

lemma get_status_snd: "snd (get_status p) = p\<lparr>is_vblank := False, is_first_write := True\<rparr>"
  by (simp add: get_status_def)

lemma in_vertical_blank_get_status:
  "in_vertical_blank (snd (get_status p)) = in_vertical_blank p"
  by (simp add: get_status_snd in_vertical_blank_def)

lemma vertical_blank_left_get_status:
  "vertical_blank_left (snd (get_status p)) = vertical_blank_left p"
  by (simp add: get_status_snd vertical_blank_left_def)

lemma PPU_cycle_timing_in_vertical_blank:
  assumes "in_vertical_blank p" and "0 < vertical_blank_left p"
  shows "in_vertical_blank (PPU_cycle_timing p)
    \<and> vertical_blank_left (PPU_cycle_timing p) = vertical_blank_left p - 1
    \<and> is_vblank (PPU_cycle_timing p) = is_vblank p
    \<and> is_first_write (PPU_cycle_timing p) = is_first_write p"
proof (cases "cycles p < SCANLINE_CYCLE_LENGTH - 1")
  case True
  with assms(1) have "PPU_cycle_timing p = p\<lparr>cycles := cycles p + 1\<rparr>"
    by (simp add: PPU_cycle_timing_def in_vertical_blank_def)
  with assms(1) True show ?thesis
    by (simp add: in_vertical_blank_def vertical_blank_left_def)
next
  case False
  with assms(1) have c: "cycles p = SCANLINE_CYCLE_LENGTH - 1"
    by (simp add: in_vertical_blank_def)
  with assms(2) have s: "scanline p < FRAME_END_SCANLINE - 1"
    by (simp add: vertical_blank_left_def SCANLINE_CYCLE_LENGTH_def zero_less_mult_iff)
  from assms(1) c s have "PPU_cycle_timing p = p\<lparr>cycles := 0, scanline := scanline p + 1\<rparr>"
    by (simp add: PPU_cycle_timing_def in_vertical_blank_def)
  with assms(1) c s show ?thesis
    by (simp add: in_vertical_blank_def vertical_blank_left_def SCANLINE_CYCLE_LENGTH_def
        algebra_simps)
qed

lemma PPU_cycle_timing_funpow_in_vertical_blank:
  assumes "in_vertical_blank p" and "int n \<le> vertical_blank_left p"
  shows "in_vertical_blank ((PPU_cycle_timing ^^ n) p)
    \<and> vertical_blank_left ((PPU_cycle_timing ^^ n) p) = vertical_blank_left p - int n
    \<and> is_vblank ((PPU_cycle_timing ^^ n) p) = is_vblank p
    \<and> is_first_write ((PPU_cycle_timing ^^ n) p) = is_first_write p"
  using assms
proof (induction n)
  case 0
  then show ?case by simp
next
  case (Suc n)
  from Suc.prems have le: "int n \<le> vertical_blank_left p" by simp
  note ih = Suc.IH [OF Suc.prems(1) le]
  from ih Suc.prems(2) have pos: "0 < vertical_blank_left ((PPU_cycle_timing ^^ n) p)" by simp
  from PPU_cycle_timing_in_vertical_blank [OF ih [THEN conjunct1] pos] ih
  show ?case by simp
qed

lemma PPU_cycle_timing_vblank_entry:
  assumes "pipeline_state p = POST_RENDER" and "cycles p = SCANLINE_CYCLE_LENGTH - 1"
  shows "in_vertical_blank (PPU_cycle_timing p) \<and> is_vblank (PPU_cycle_timing p)
    \<and> vertical_blank_left (PPU_cycle_timing p) = 6819"
  using assms
  by (simp add: PPU_cycle_timing_def in_vertical_blank_def vertical_blank_left_def
      VISIBLE_SCANLINES_def FRAME_END_SCANLINE_def SCANLINE_CYCLE_LENGTH_def)

text \<open>
  C8. On the vertical-blank scanlines, a read of the status register returns the vblank
  flag (bit 7), clears the flag and resets the address-latch toggle, changing nothing
  else. After it, for every number \<open>n\<close> of PPU cycles that the blanking period still has
  room for, the PPU is on the vertical-blank scanlines throughout, the flag stays cleared
  and the toggle stays reset, so a second read within the same blanking period returns
  the flag cleared; with \<open>n = 0\<close> this is the read right after the first.
\<close>

theorem get_status_clears_vblank:
  assumes "in_vertical_blank p" and "int n \<le> vertical_blank_left p"
  shows "bit (fst (get_status p)) 7 = is_vblank p
   \<and> snd (get_status p) = p\<lparr>is_vblank := False, is_first_write := True\<rparr>
   \<and> \<not> is_vblank (snd (get_status p))
   \<and> is_first_write (snd (get_status p))
   \<and> \<not> bit (fst (get_status (snd (get_status p)))) 7
   \<and> \<not> is_vblank (snd (get_status (snd (get_status p))))
   \<and> (\<forall>k\<le>n. in_vertical_blank ((PPU_cycle_timing ^^ k) (snd (get_status p))))
   \<and> \<not> is_vblank ((PPU_cycle_timing ^^ n) (snd (get_status p)))
   \<and> is_first_write ((PPU_cycle_timing ^^ n) (snd (get_status p)))
   \<and> \<not> bit (fst (get_status ((PPU_cycle_timing ^^ n) (snd (get_status p))))) 7"
proof -
  let ?q = "snd (get_status p)"
  have q: "in_vertical_blank ?q" "vertical_blank_left ?q = vertical_blank_left p"
    using assms(1) by (simp_all add: in_vertical_blank_get_status vertical_blank_left_get_status)
  have f: "\<not> is_vblank ?q" "is_first_write ?q"
    by (simp_all add: get_status_snd)
  have stay: "\<forall>k\<le>n. in_vertical_blank ((PPU_cycle_timing ^^ k) ?q)"
  proof (intro allI impI)
    fix k assume "k \<le> n"
    with assms(2) q(2) have "int k \<le> vertical_blank_left ?q" by simp
    from PPU_cycle_timing_funpow_in_vertical_blank [OF q(1) this]
    show "in_vertical_blank ((PPU_cycle_timing ^^ k) ?q)" by blast
  qed
  from assms(2) q(2) have "int n \<le> vertical_blank_left ?q" by simp
  from PPU_cycle_timing_funpow_in_vertical_blank [OF q(1) this] f
  have later: "\<not> is_vblank ((PPU_cycle_timing ^^ n) ?q)"
    "is_first_write ((PPU_cycle_timing ^^ n) ?q)"
    by simp_all
  then have second: "\<not> bit (fst (get_status ((PPU_cycle_timing ^^ n) ?q))) 7"
    by (simp only: get_status_bits not_False_eq_True)
  have back_to_back: "\<not> bit (fst (get_status ?q)) 7" "\<not> is_vblank (snd (get_status ?q))"
    using f by (simp_all add: get_status_bits get_status_snd)
  from get_status_bits [of p] get_status_snd [of p] f back_to_back stay later second
  show ?thesis by (intro conjI)
qed

text \<open>
  The theorem from the first dot of vertical blank with the flag raised: the first read
  returns the flag set; a second read three PPU cycles later (one call of \<^verbatim>\<open>Core::step\<close>),
  and one 6819 cycles later, at the last dot of the period, return it cleared.
\<close>

lemma PPU_vblank_entry_facts:
  "in_vertical_blank PPU_vblank_entry" "vertical_blank_left PPU_vblank_entry = 6819"
  "is_vblank PPU_vblank_entry"
  by (simp_all add: PPU_vblank_entry_def in_vertical_blank_def vertical_blank_left_def
      VISIBLE_SCANLINES_def FRAME_END_SCANLINE_def SCANLINE_CYCLE_LENGTH_def)

theorem get_status_clears_vblank_witness:
  "in_vertical_blank PPU_vblank_entry \<and> int 3 \<le> vertical_blank_left PPU_vblank_entry
   \<and> bit (fst (get_status PPU_vblank_entry)) 7
   \<and> \<not> bit (fst (get_status ((PPU_cycle_timing ^^ 3) (snd (get_status PPU_vblank_entry))))) 7
   \<and> \<not> bit (fst (get_status ((PPU_cycle_timing ^^ 6819) (snd (get_status PPU_vblank_entry))))) 7"
proof -
  have a: "in_vertical_blank PPU_vblank_entry" by (rule PPU_vblank_entry_facts)
  have b3: "int 3 \<le> vertical_blank_left PPU_vblank_entry"
    and b: "int 6819 \<le> vertical_blank_left PPU_vblank_entry"
    by (simp_all add: PPU_vblank_entry_facts)
  note t3 = get_status_clears_vblank [OF a b3]
  note t = get_status_clears_vblank [OF a b]
  have first: "bit (fst (get_status PPU_vblank_entry)) 7"
    using t3 [THEN conjunct1] PPU_vblank_entry_facts(3) by (simp only: simp_thms)
  have s3: "\<not> bit (fst (get_status ((PPU_cycle_timing ^^ 3) (snd (get_status PPU_vblank_entry))))) 7"
    using t3 by blast
  have s: "\<not> bit (fst (get_status ((PPU_cycle_timing ^^ 6819) (snd (get_status PPU_vblank_entry))))) 7"
    using t by blast
  from a b3 first s3 s show ?thesis by (intro conjI)
qed

section \<open>Properties of sprite evaluation\<close>

lemma contents_push_back:
  assumes "current_size buf < reserved_size buf" and "current_size buf < length (elems buf)"
  shows "\<exists>buf'. push_back v buf = Inr buf' \<and> contents buf' = contents buf @ [v]
     \<and> current_size buf' = Suc (current_size buf) \<and> reserved_size buf' = reserved_size buf
     \<and> length (elems buf') = length (elems buf)"
  using assms
  by (simp add: push_back_def array_store_def contents_def take_Suc_conv_app_nth)

lemma evaluate_sprites_result:
  assumes "length (elems buf) = 8" and "reserved_size buf = 8" and "current_size buf \<le> 8"
  shows "\<exists>buf'. evaluate_sprites on_line rest buf = Inr buf'
     \<and> contents buf' = contents buf @ map of_nat (take (8 - current_size buf) (filter on_line rest))
     \<and> current_size buf' \<le> 8 \<and> reserved_size buf' = 8 \<and> length (elems buf') = 8
     \<and> current_size buf' = min 8 (current_size buf + length (filter on_line rest))"
  using assms
proof (induction rest arbitrary: buf)
  case Nil
  then show ?case by simp
next
  case (Cons i rest)
  show ?case
  proof (cases "on_line i")
    case False
    with Cons.IH [OF Cons.prems] show ?thesis by simp
  next
    case True
    show ?thesis
    proof (cases "current_size buf < 8")
      case room: True
      with Cons.prems contents_push_back [of buf "of_nat i"] obtain buf' where
        pb: "push_back (of_nat i) buf = Inr buf'"
        and c: "contents buf' = contents buf @ [of_nat i]"
        and sz: "current_size buf' = Suc (current_size buf)"
        and rs: "reserved_size buf' = 8" and len: "length (elems buf') = 8"
        by auto
      from sz room have le: "current_size buf' \<le> 8" by simp
      from Cons.IH [OF len rs le] obtain r where
        ev: "evaluate_sprites on_line rest buf' = Inr r"
        and rc: "contents r = contents buf' @ map of_nat (take (8 - current_size buf') (filter on_line rest))"
        and rr: "current_size r \<le> 8" "reserved_size r = 8" "length (elems r) = 8"
        and rn: "current_size r = min 8 (current_size buf' + length (filter on_line rest))"
        by blast
      have t: "take (8 - current_size buf) (i # filter on_line rest)
          = i # take (8 - current_size buf') (filter on_line rest)"
        using room sz by (simp add: take_Cons')
      have "evaluate_sprites on_line (i # rest) buf = Inr r"
        using True room pb ev by (simp add: keep_sprite_def)
      moreover have "contents r
          = contents buf @ map of_nat (take (8 - current_size buf) (filter on_line (i # rest)))"
        using True rc c t by simp
      moreover have "current_size r = min 8 (current_size buf + length (filter on_line (i # rest)))"
        using True rn sz by simp
      ultimately show ?thesis using rr by blast
    next
      case full: False
      with Cons.prems have eq: "current_size buf = 8" by simp
      from Cons.IH [OF Cons.prems] obtain r where
        ev: "evaluate_sprites on_line rest buf = Inr r"
        and rc: "contents r = contents buf @ map of_nat (take (8 - current_size buf) (filter on_line rest))"
        and rr: "current_size r \<le> 8" "reserved_size r = 8" "length (elems r) = 8"
        and rn: "current_size r = min 8 (current_size buf + length (filter on_line rest))"
        by blast
      have "evaluate_sprites on_line (i # rest) buf = Inr r"
        using True full ev by (simp add: keep_sprite_def)
      moreover have "contents r
          = contents buf @ map of_nat (take (8 - current_size buf) (filter on_line (i # rest)))"
        using rc eq by simp
      moreover have "current_size r = min 8 (current_size buf + length (filter on_line (i # rest)))"
        using rn eq by simp
      ultimately show ?thesis using rr by blast
    qed
  qed
qed

text \<open>
  C6. From every PPU whose scanline-sprite buffer has its initial capacity of 8, sprite
  evaluation for a scanline succeeds (the buffer never throws) and retains at most 8
  entries, however many of the 64 OAM entries intersect the scanline: it keeps the first
  8 intersecting entries in OAM order and drops the 9th and later ones. The capacity stays
  8, so the same holds for the next evaluation. Besides, whatever calls are made through
  the interface of the buffer, it never holds more than 8 entries.
\<close>

theorem sprite_evaluation_at_most_8:
  assumes "sv_inv 8 (scanline_sprites p)" and "reserved_size (scanline_sprites p) = 8"
  shows "\<exists>q. sprite_evaluation on_line p = Inr q
     \<and> current_size (scanline_sprites q) \<le> 8
     \<and> length (contents (scanline_sprites q)) \<le> 8
     \<and> contents (scanline_sprites q) = map of_nat (take 8 (filter on_line [0..<64]))
     \<and> current_size (scanline_sprites q) = min 8 (length (filter on_line [0..<64]))
     \<and> sv_inv 8 (scanline_sprites q) \<and> reserved_size (scanline_sprites q) = 8
     \<and> q = p\<lparr>scanline_sprites := scanline_sprites q\<rparr>
     \<and> current_size (snd (sv_run 8 ops (scanline_sprites p))) \<le> 8"
proof -
  let ?b = "clear (scanline_sprites p)"
  have b: "length (elems ?b) = 8" "reserved_size ?b = 8" "current_size ?b \<le> 8"
    and b0: "current_size ?b = 0" "contents ?b = []"
    using assms by (simp_all add: clear_def sv_inv_def contents_def)
  from evaluate_sprites_result [OF b, of on_line "[0..<64]"] obtain r where
    ev: "evaluate_sprites on_line [0..<64] ?b = Inr r"
    and rc: "contents r = map of_nat (take 8 (filter on_line [0..<64]))"
    and rr: "current_size r \<le> 8" "reserved_size r = 8" "length (elems r) = 8"
    and rn: "current_size r = min 8 (length (filter on_line [0..<64]))"
    unfolding b0 by auto
  let ?q = "p\<lparr>scanline_sprites := r\<rparr>"
  have 1: "sprite_evaluation on_line p = Inr ?q"
    using ev by (simp add: sprite_evaluation_def)
  have 2: "length (contents (scanline_sprites ?q)) \<le> 8"
    using rc by simp
  have 3: "sv_inv 8 (scanline_sprites ?q)"
    using rr by (simp add: sv_inv_def)
  have 4: "current_size (snd (sv_run 8 ops (scanline_sprites p))) \<le> 8"
    using sv_run_inv [OF assms(1), of ops] by (simp add: sv_inv_def)
  have 5: "?q = ?q\<lparr>scanline_sprites := scanline_sprites ?q\<rparr>" by simp
  from 1 2 3 4 5 rc rr rn show ?thesis
    by (intro exI [of _ ?q]) simp
qed

text \<open>The theorem on a scanline that all 64 entries intersect: entries 0 to 7 are kept.\<close>

theorem sprite_evaluation_at_most_8_witness:
  "sv_inv 8 (scanline_sprites PPU_zero) \<and> reserved_size (scanline_sprites PPU_zero) = 8
   \<and> (\<exists>q. sprite_evaluation (\<lambda>i. True) PPU_zero = Inr q
         \<and> current_size (scanline_sprites q) = 8
         \<and> contents (scanline_sprites q) = map of_nat [0..<8])"
proof -
  have a: "sv_inv 8 (scanline_sprites PPU_zero)"
    by (simp add: PPU_zero_def sv_inv_new)
  have b: "reserved_size (scanline_sprites PPU_zero) = 8"
    by (simp add: PPU_zero_def static_vector_new_def)
  have c: "take 8 [0..<64] = [0..<8]"
    by (simp add: take_upt)
  from sprite_evaluation_at_most_8 [OF a b, of "\<lambda>i. True" "[]"] a b c
  show ?thesis by auto
qed

end
